theory Spec2Isabelle
  imports Main "HOL-Library.Word"
begin

unbundle bit_operations_syntax

section \<open>Bytes and little-endian integers\<close>

type_synonym byte = "8 word"
type_synonym bytes = "byte list"

text \<open>The value of a byte string read as a little-endian number.\<close>

fun le_int :: "bytes \<Rightarrow> int" where
  "le_int [] = 0"
| "le_int (b # bs) = uint b + 256 * le_int bs"

text \<open>The \<open>n\<close>-byte little-endian encoding of a number.\<close>

fun le_bytes :: "nat \<Rightarrow> int \<Rightarrow> bytes" where
  "le_bytes 0 v = []"
| "le_bytes (Suc n) v = word_of_int v # le_bytes n (v div 256)"

text \<open>
  Go's builtin \<open>copy(dst[off:], src)\<close>: it copies as many elements as both slices hold
  and leaves the rest of \<open>dst\<close> as it was.
\<close>

definition go_copy :: "bytes \<Rightarrow> nat \<Rightarrow> bytes \<Rightarrow> bytes" where
  "go_copy dst off src =
     (let n = min (length dst - off) (length src)
      in take off dst @ take n src @ drop (off + n) dst)"

section \<open>The imported packages\<close>

text \<open>
  \<open>SignCurve25519.go\<close> imports \<open>crypto/sha512\<close> and \<open>filippo.io/edwards25519\<close>; neither
  is part of the repository. SHA-512 is a parameter \<open>H\<close> of the model, the function from
  the bytes written to the digest. The scalar and point operations are defined below, by
  their values: a scalar is a number below the group order, a point an affine pair.
\<close>

subsection \<open>crypto/sha512: the hash object\<close>

text \<open>
  Modelled from the spec: package \<open>crypto/sha512\<close> is missing, "a cryptographic hash
  function producing a 64-byte digest". The state of a hash object is the sequence of
  bytes written since it was created or reset. \<open>Sum\<close> reads the digest of that sequence,
  \<open>sha512.Size = 64\<close> bytes of it, and leaves the state alone; \<open>Write\<close> only reads its
  argument.
\<close>

type_synonym hash_state = bytes

definition sha512_New :: hash_state where
  "sha512_New = []"

definition hash_Write :: "hash_state \<Rightarrow> bytes \<Rightarrow> hash_state" where
  "hash_Write st p = st @ p"

definition hash_Reset :: "hash_state \<Rightarrow> hash_state" where
  "hash_Reset st = []"

definition hash_Sum :: "(bytes \<Rightarrow> bytes) \<Rightarrow> hash_state \<Rightarrow> bytes" where
  "hash_Sum H st = take 64 (H st @ replicate 64 0)"

subsection \<open>edwards25519: scalars modulo the group order\<close>

text \<open>
  Modelled from the spec: type \<open>Scalar\<close> of package \<open>filippo.io/edwards25519\<close> is
  missing. "Group order (L): the prime order of the curve's base-point subgroup; all
  scalars in signatures are reduced modulo L". A \<open>Scalar\<close> of the package is always
  reduced, so it is modelled by its value in \<open>{0..<curve_L}\<close>.
\<close>

definition curve_L :: int where
  "curve_L = 2 ^ 252 + 27742317777372353535851937790883648493"

type_synonym scalar = int

text \<open>Modelled from the spec: \<open>SetUniformBytes\<close> is missing, "scalar reduction modulo the
  group order" of a 64-byte little-endian value; an error on any other length.\<close>

definition SetUniformBytes :: "bytes \<Rightarrow> scalar option" where
  "SetUniformBytes x = (if length x \<noteq> 64 then None else Some (le_int x mod curve_L))"

text \<open>Modelled from the spec: \<open>SetBytesWithClamping\<close> is missing, "the standard
  Curve25519 clamping (clear/set specific low/high bits per RFC 7748 section 5)". The 32
  bytes are copied into a 64-byte buffer of the callee, clamped there and reduced; an
  error on any other length.\<close>

definition SetBytesWithClamping :: "bytes \<Rightarrow> scalar option" where
  "SetBytesWithClamping x =
     (if length x \<noteq> 32 then None
      else let wideBytes = go_copy (replicate 64 0) 0 x;
               wideBytes = wideBytes[0 := wideBytes ! 0 AND 248];
               wideBytes = wideBytes[31 := wideBytes ! 31 AND 63];
               wideBytes = wideBytes[31 := wideBytes ! 31 OR 64]
           in SetUniformBytes wideBytes)"

text \<open>Modelled from the spec: \<open>SetCanonicalBytes\<close> is missing, which "MUST reject
  non-canonical scalar encodings (value \<ge> group order L)": 32 bytes that encode a value
  below the group order, an error otherwise.\<close>

definition SetCanonicalBytes :: "bytes \<Rightarrow> scalar option" where
  "SetCanonicalBytes x =
     (if length x \<noteq> 32 then None
      else if le_int x < curve_L then Some (le_int x) else None)"

text \<open>Modelled from the spec: \<open>MultiplyAdd\<close> and \<open>Bytes\<close> are missing.
  \<open>MultiplyAdd(x, y, z)\<close> is \<open>x * y + z mod L\<close>, as in "S = (r + h * privateScalar) mod L";
  \<open>Bytes\<close> is the 32-byte "little-endian scalar".\<close>

definition MultiplyAdd :: "scalar \<Rightarrow> scalar \<Rightarrow> scalar \<Rightarrow> scalar" where
  "MultiplyAdd x y z = (x * y + z) mod curve_L"

definition Scalar_Bytes :: "scalar \<Rightarrow> bytes" where
  "Scalar_Bytes s = le_bytes 32 s"

subsection \<open>edwards25519: the field and the curve\<close>

text \<open>
  Modelled from the spec: type \<open>Point\<close> of package \<open>filippo.io/edwards25519\<close> is missing,
  "a point on the twisted Edwards curve used by Ed25519-style signatures, compressible
  to 32 bytes plus a sign bit". Field elements are integers in \<open>{0..<curve_p}\<close>; a point
  is its affine pair \<open>(x, y)\<close> on \<open>- x\<^sup>2 + y\<^sup>2 = 1 + d x\<^sup>2 y\<^sup>2\<close>, and the addition is
  the one of that curve.
\<close>

definition curve_p :: int where
  "curve_p = 2 ^ 255 - 19"

definition fe_add :: "int \<Rightarrow> int \<Rightarrow> int" where
  "fe_add a b = (a + b) mod curve_p"

definition fe_sub :: "int \<Rightarrow> int \<Rightarrow> int" where
  "fe_sub a b = (a - b) mod curve_p"

definition fe_neg :: "int \<Rightarrow> int" where
  "fe_neg a = (- a) mod curve_p"

definition fe_mul :: "int \<Rightarrow> int \<Rightarrow> int" where
  "fe_mul a b = (a * b) mod curve_p"

fun fe_pow :: "int \<Rightarrow> nat \<Rightarrow> int" where
  "fe_pow a n =
     (if n = 0 then 1
      else if even n then fe_pow (fe_mul a a) (n div 2)
      else fe_mul a (fe_pow (fe_mul a a) (n div 2)))"

declare fe_pow.simps [simp del]

definition fe_inv :: "int \<Rightarrow> int" where
  "fe_inv a = fe_pow a (nat (curve_p - 2))"

definition curve_d :: int where
  "curve_d = 37095705934669439343138083508754565189542113879843219016388785533085940283555"

definition sqrt_m1 :: int where
  "sqrt_m1 = 19681161376707505956807079304988542015446066515923890162744021073123829784752"

type_synonym point = "int \<times> int"

definition basepoint :: point where
  "basepoint =
     (15112221349535400772501151409588531511454012693041857206046113283949847762202,
      46316835694926478169428394003475163141307993866256225615783033603165251855960)"

definition identity_point :: point where
  "identity_point = (0, 1)"

fun pt_add :: "point \<Rightarrow> point \<Rightarrow> point" where
  "pt_add (x1, y1) (x2, y2) =
     (let t = fe_mul curve_d (fe_mul (fe_mul x1 x2) (fe_mul y1 y2))
      in (fe_mul (fe_add (fe_mul x1 y2) (fe_mul x2 y1)) (fe_inv (fe_add 1 t)),
          fe_mul (fe_add (fe_mul y1 y2) (fe_mul x1 x2)) (fe_inv (fe_sub 1 t))))"

fun pt_mul :: "nat \<Rightarrow> point \<Rightarrow> point" where
  "pt_mul k Q =
     (if k = 0 then identity_point
      else if even k then pt_mul (k div 2) (pt_add Q Q)
      else pt_add Q (pt_mul (k div 2) (pt_add Q Q)))"

declare pt_mul.simps [simp del]

text \<open>Modelled from the spec: \<open>ScalarMult\<close> and \<open>ScalarBaseMult\<close> are missing, the "scalar
  multiplication" of a point and of the base point.\<close>

definition ScalarMult :: "scalar \<Rightarrow> point \<Rightarrow> point" where
  "ScalarMult s Q = pt_mul (nat s) Q"

definition ScalarBaseMult :: "scalar \<Rightarrow> point" where
  "ScalarBaseMult s = ScalarMult s basepoint"

text \<open>Modelled from the spec: \<open>VarTimeDoubleScalarBaseMult\<close> is missing, the "combined
  double-scalar-multiplication". The package computes \<open>a * A + b * B\<close> from \<open>(a, A, b)\<close>,
  with \<open>B\<close> the base point; it does not negate \<open>A\<close>.\<close>

definition VarTimeDoubleScalarBaseMult :: "scalar \<Rightarrow> point \<Rightarrow> scalar \<Rightarrow> point" where
  "VarTimeDoubleScalarBaseMult a A b = pt_add (ScalarMult a A) (ScalarMult b basepoint)"

text \<open>Modelled from the spec: \<open>Bytes\<close> is missing, the "32-byte compressed Edwards
  point; bit 7 of byte 31 is the sign bit": the encoding of \<open>y\<close>, with the parity of \<open>x\<close>
  in bit 7 of the last byte.\<close>

fun Point_Bytes :: "point \<Rightarrow> bytes" where
  "Point_Bytes (x, y) = le_bytes 32 (y + 2 ^ 255 * (x mod 2))"

text \<open>Modelled from the spec: \<open>Equal\<close> is missing, the "point equality"; it returns 1
  for equal points and 0 otherwise.\<close>

definition Point_Equal :: "point \<Rightarrow> point \<Rightarrow> int" where
  "Point_Equal Q R = (if Q = R then 1 else 0)"

text \<open>The non-negative one of a field element and its negation (lowest bit clear).\<close>

definition fe_abs :: "int \<Rightarrow> int" where
  "fe_abs a = (if odd a then fe_neg a else a)"

text \<open>\<open>SqrtRatio(u, v)\<close>: the non-negative square root of \<open>u / v\<close> and whether there is
  one.\<close>

definition SqrtRatio :: "int \<Rightarrow> int \<Rightarrow> int \<times> bool" where
  "SqrtRatio u v =
     (let v3 = fe_mul (fe_mul v v) v;
          v7 = fe_mul (fe_mul v3 v3) v;
          r = fe_mul (fe_mul u v3) (fe_pow (fe_mul u v7) (nat ((curve_p - 5) div 8)));
          chk = fe_mul v (fe_mul r r)
      in if chk = u then (fe_abs r, True)
         else if chk = fe_neg u then (fe_abs (fe_mul r sqrt_m1), True)
         else (fe_abs (fe_mul r sqrt_m1), False))"

text \<open>Modelled from the spec: \<open>SetBytes\<close> is missing, the "point decode". It reads \<open>y\<close>
  from the low 255 bits (reduced when it is not), recovers \<open>x\<close> from the curve equation
  and takes the root whose parity is bit 7 of the last byte; an error when the length is
  not 32 or there is no root.\<close>

definition Point_SetBytes :: "bytes \<Rightarrow> point option" where
  "Point_SetBytes x =
     (if length x \<noteq> 32 then None
      else let y = (le_int x mod 2 ^ 255) mod curve_p;
               y2 = fe_mul y y;
               u = fe_sub y2 1;
               vv = fe_add (fe_mul y2 curve_d) 1;
               (xx, wasSquare) = SqrtRatio u vv
           in if \<not> wasSquare then None
              else Some (if drop_bit 7 (x ! 31) = 1 then fe_neg xx else xx, y))"

section \<open>SignCurve25519.go\<close>

text \<open>
  A Go panic is a value of the result. \<open>sign\<close> panics by itself when the private key does
  not decode, and the runtime panics when a nil pointer is dereferenced: the error
  results that the source drops with \<open>_\<close> would leave such a pointer behind.
\<close>

datatype fault = Panic string | NilDereference

text \<open>
  The memory the caller shares with \<open>sign\<close>: a list of byte arrays, addressed by index.
  \<open>privateKey\<close> is a pointer to an array, \<open>message\<close> a slice over one (a slice over
  nothing is the nil slice, which reads as empty), \<open>random\<close> is passed by value, and the
  signature returned is a pointer to a newly allocated array.
\<close>

type_synonym heap = "bytes list"

definition slice_at :: "heap \<Rightarrow> nat \<Rightarrow> bytes" where
  "slice_at mem a = (if a < length mem then mem ! a else [])"

definition diversifier :: bytes where
  "diversifier =
     [0xFE, 0xFF, 0xFF, 0xFF, 0xFF, 0xFF, 0xFF, 0xFF,
      0xFF, 0xFF, 0xFF, 0xFF, 0xFF, 0xFF, 0xFF, 0xFF,
      0xFF, 0xFF, 0xFF, 0xFF, 0xFF, 0xFF, 0xFF, 0xFF,
      0xFF, 0xFF, 0xFF, 0xFF, 0xFF, 0xFF, 0xFF, 0xFF]"

text \<open>The bytes \<open>sign\<close> writes into the hash object to derive the nonce ("Calculate r").\<close>

definition sign_nonce_input :: "bytes \<Rightarrow> bytes \<Rightarrow> bytes \<Rightarrow> hash_state" where
  "sign_nonce_input privateKey message random =
     (let hash = sha512_New;
          hash = hash_Write hash diversifier;
          hash = hash_Write hash privateKey;
          hash = hash_Write hash message;
          hash = hash_Write hash random
      in hash)"

definition sign :: "(bytes \<Rightarrow> bytes) \<Rightarrow> heap \<Rightarrow> nat \<Rightarrow> nat \<Rightarrow> bytes \<Rightarrow> heap \<times> (fault + nat)" where
  "sign H mem privateKey message random =
     (if length mem \<le> privateKey then (mem, Inl NilDereference)
      else case SetBytesWithClamping (mem ! privateKey) of
        None \<Rightarrow> (mem, Inl (Panic ''invalid private key''))
      | Some privScalar \<Rightarrow>
          let publicKey = Point_Bytes (ScalarBaseMult privScalar);
              hash = sign_nonce_input (mem ! privateKey) (slice_at mem message) random;
              r = hash_Sum H hash
          in case SetUniformBytes r of
            None \<Rightarrow> (mem, Inl NilDereference)
          | Some rScalar \<Rightarrow>
              let R = ScalarBaseMult rScalar;
                  encodedR = Point_Bytes R;
                  hash = hash_Reset hash;
                  hash = hash_Write hash encodedR;
                  hash = hash_Write hash publicKey;
                  hash = hash_Write hash (slice_at mem message);
                  hramDigest = hash_Sum H hash
              in case SetUniformBytes hramDigest of
                None \<Rightarrow> (mem, Inl NilDereference)
              | Some hramScalar \<Rightarrow>
                  let s = MultiplyAdd hramScalar privScalar rScalar;
                      signature = length mem;
                      mem = mem @ [replicate 64 0];
                      mem = mem[signature := go_copy (mem ! signature) 0 encodedR];
                      mem = mem[signature := go_copy (mem ! signature) 32 (Scalar_Bytes s)];
                      mem = mem[signature :=
                              (mem ! signature)[63 := mem ! signature ! 63 OR (publicKey ! 31 AND 0x80)]]
                  in (mem, Inr signature))"

text \<open>The bytes behind the pointer that \<open>sign\<close> returns.\<close>

fun signature_of :: "heap \<times> (fault + nat) \<Rightarrow> fault + bytes" where
  "signature_of (mem, Inl e) = Inl e"
| "signature_of (mem, Inr a) = Inr (mem ! a)"

text \<open>
  \<open>verify\<close> takes the public key by value and only reads the message and the signature,
  so the model takes their bytes. \<open>verify_run\<close> returns, next to the result, the state of
  the local hash object when \<open>verify\<close> returns (\<open>None\<close> when it returned before creating
  one).
\<close>

definition verify_run ::
  "(bytes \<Rightarrow> bytes) \<Rightarrow> bytes \<Rightarrow> bytes \<Rightarrow> bytes \<Rightarrow> hash_state option \<times> (fault + bool)" where
  "verify_run H publicKey message signature =
     (let publicKey = publicKey[31 := publicKey ! 31 AND 0x7F]
      in case Point_SetBytes publicKey of
        None \<Rightarrow> (None, Inr False)
      | Some A \<Rightarrow>
          (case Point_SetBytes (take 32 signature) of
            None \<Rightarrow> (None, Inr False)
          | Some R \<Rightarrow>
              (case SetCanonicalBytes (drop 32 signature) of
                None \<Rightarrow> (None, Inr False)
              | Some s \<Rightarrow>
                  let hash = sha512_New;
                      hash = hash_Write hash (take 32 signature);
                      hash = hash_Write hash publicKey;
                      hash = hash_Write hash message;
                      hramDigest = hash_Sum H hash
                  in case SetUniformBytes hramDigest of
                    None \<Rightarrow> (Some hash, Inl NilDereference)
                  | Some hramScalar \<Rightarrow>
                      let check = VarTimeDoubleScalarBaseMult hramScalar A s
                      in (Some hash, Inr (Point_Equal check R = 1)))))"

definition verify :: "(bytes \<Rightarrow> bytes) \<Rightarrow> bytes \<Rightarrow> bytes \<Rightarrow> bytes \<Rightarrow> fault + bool" where
  "verify H publicKey message signature = snd (verify_run H publicKey message signature)"

text \<open>
  The public key that belongs to a private key, as \<open>sign\<close> derives it in its first step
  and as the example in the comment at the end of the file derives it for \<open>verify\<close>.
\<close>

definition publicKeyOf :: "bytes \<Rightarrow> bytes option" where
  "publicKeyOf privateKey =
     (case SetBytesWithClamping privateKey of
        None \<Rightarrow> None
      | Some privScalar \<Rightarrow> Some (Point_Bytes (ScalarBaseMult privScalar)))"

section \<open>Facts about the encodings\<close>

lemma length_le_bytes [simp]: "length (le_bytes n v) = n"
  by (induction n arbitrary: v) auto

lemma le_bytes_nth: "i < n \<Longrightarrow> le_bytes n v ! i = word_of_int (v div 256 ^ i)"
proof (induction n arbitrary: v i)
  case 0
  then show ?case by simp
next
  case (Suc n)
  show ?case
  proof (cases i)
    case 0
    then show ?thesis by simp
  next
    case (Suc j)
    with Suc.prems have "j < n" by simp
    then have "le_bytes n (v div 256) ! j = word_of_int (v div 256 div 256 ^ j)"
      by (rule Suc.IH)
    moreover have "v div 256 div 256 ^ j = v div 256 ^ Suc j"
      by (simp add: zdiv_zmult2_eq)
    ultimately show ?thesis using Suc by simp
  qed
qed

lemma length_Point_Bytes [simp]: "length (Point_Bytes Q) = 32"
  by (cases Q) simp

lemma length_Scalar_Bytes [simp]: "length (Scalar_Bytes s) = 32"
  by (simp add: Scalar_Bytes_def)

lemma length_hash_Sum [simp]: "length (hash_Sum H st) = 64"
  by (simp add: hash_Sum_def)

lemma SetUniformBytes_hash_Sum:
  "SetUniformBytes (hash_Sum H st) = Some (le_int (hash_Sum H st) mod curve_L)"
  by (simp add: SetUniformBytes_def)

lemma le_int_nonneg: "0 \<le> le_int x"
  by (induction x) auto

lemma le_int_ge_nth: "i < length x \<Longrightarrow> uint (x ! i) * 256 ^ i \<le> le_int x"
proof (induction x arbitrary: i)
  case Nil
  then show ?case by simp
next
  case (Cons b bs)
  show ?case
  proof (cases i)
    case 0
    then show ?thesis using le_int_nonneg [of bs] by simp
  next
    case (Suc j)
    with Cons.prems have "j < length bs" by simp
    then have IH: "uint (bs ! j) * 256 ^ j \<le> le_int bs" by (rule Cons.IH)
    have "uint ((b # bs) ! i) * 256 ^ i = 256 * (uint (bs ! j) * 256 ^ j)"
      using Suc by simp
    also have "\<dots> \<le> 256 * le_int bs" using IH by simp
    also have "\<dots> \<le> le_int (b # bs)" by simp
    finally show ?thesis .
  qed
qed

lemma bit7_uint_ge: "bit (b :: byte) 7 \<Longrightarrow> 128 \<le> uint b"
proof (rule ccontr)
  assume b: "bit b 7" and "\<not> 128 \<le> uint b"
  then have "uint b div 2 ^ 7 = 0" by simp
  moreover from b have "bit (uint b) 7" by (simp add: bit_uint_iff)
  then have "odd (uint b div 2 ^ 7)" by (simp add: bit_iff_odd)
  ultimately show False by simp
qed

lemma curve_L_lt: "curve_L < 2 ^ 253"
  by (simp add: curve_L_def)

lemma curve_L_pos: "0 < curve_L"
  by (simp add: curve_L_def)

lemma SetCanonicalBytes_sign_bit:
  assumes "length x = 32" and "bit (x ! 31) 7"
  shows "SetCanonicalBytes x = None"
proof -
  have "uint (x ! 31) * 256 ^ 31 \<le> le_int x"
    using assms(1) by (intro le_int_ge_nth) simp
  moreover have "128 * 256 ^ 31 \<le> uint (x ! 31) * (256 ^ 31 :: int)"
    using bit7_uint_ge [OF assms(2)] by simp
  ultimately have "2 ^ 253 \<le> le_int x" by simp
  with curve_L_lt have "\<not> le_int x < curve_L" by linarith
  then show ?thesis by (simp add: SetCanonicalBytes_def)
qed

lemma Scalar_Bytes_top_bit:
  assumes "0 \<le> s" and "s < curve_L"
  shows "\<not> bit (Scalar_Bytes s ! 31) 7"
proof -
  define q where "q = s div 256 ^ 31"
  have lt: "s < 2 ^ 253" using assms(2) curve_L_lt by linarith
  have s: "s = 256 ^ 31 * q + s mod 256 ^ 31" by (simp add: q_def)
  have m: "0 \<le> s mod 256 ^ 31" by simp
  have "q < 32"
  proof (rule ccontr)
    assume "\<not> q < 32"
    then have "(256 ^ 31 :: int) * 32 \<le> 256 ^ 31 * q" by simp
    with s m have "(256 ^ 31 :: int) * 32 \<le> s" by linarith
    with lt show False by simp
  qed
  moreover have "0 \<le> q" using assms(1) by (simp add: q_def pos_imp_zdiv_nonneg_iff)
  ultimately have "q div 2 ^ 7 = 0" by simp
  then have "\<not> bit q 7" by (simp add: bit_iff_odd)
  then have "\<not> bit (s div 256 ^ 31) 7" unfolding q_def .
  then show ?thesis
    by (simp add: Scalar_Bytes_def le_bytes_nth bit_word_of_int_iff)
qed

section \<open>Facts about \<open>sign\<close> and \<open>verify\<close>\<close>

lemma go_copy_first:
  "length dst = 64 \<Longrightarrow> length src = 32 \<Longrightarrow> go_copy dst 0 src = src @ drop 32 dst"
  by (simp add: go_copy_def)

lemma go_copy_second:
  "length dst = 64 \<Longrightarrow> length src = 32 \<Longrightarrow> go_copy dst 32 src = take 32 dst @ src"
  by (simp add: go_copy_def)

lemma SetBytesWithClamping_Some:
  "length x = 32 \<Longrightarrow> \<exists>a. SetBytesWithClamping x = Some a \<and> 0 \<le> a \<and> a < curve_L"
  using curve_L_pos by (simp add: SetBytesWithClamping_def SetUniformBytes_def go_copy_def Let_def)

lemma sign_nonce_input_eq:
  "sign_nonce_input p m rnd = diversifier @ p @ m @ rnd"
  by (simp add: sign_nonce_input_def sha512_New_def hash_Write_def)

text \<open>What \<open>sign\<close> returns once the private key has decoded.\<close>

lemma sign_result:
  assumes "privateKey < length mem"
    and "SetBytesWithClamping (mem ! privateKey) = Some a"
    and "pk = Point_Bytes (ScalarBaseMult a)"
    and "SetUniformBytes (hash_Sum H (diversifier @ mem ! privateKey @ slice_at mem message @ random)) = Some r"
    and "encR = Point_Bytes (ScalarBaseMult r)"
    and "SetUniformBytes (hash_Sum H (encR @ pk @ slice_at mem message)) = Some h"
    and "encS = Scalar_Bytes (MultiplyAdd h a r)"
  shows "sign H mem privateKey message random =
           (mem @ [(encR @ encS)[63 := encS ! 31 OR (pk ! 31 AND 0x80)]], Inr (length mem))"
  using assms
  by (simp add: sign_def Let_def sign_nonce_input_eq hash_Reset_def hash_Write_def
      go_copy_first go_copy_second nth_append)

lemma verify_no_fault: "\<exists>b. verify H publicKey message signature = Inr b"
  by (auto simp add: verify_def verify_run_def Let_def SetUniformBytes_hash_Sum split: option.splits)

lemma verify_scalar_rejected:
  "SetCanonicalBytes (drop 32 signature) = None \<Longrightarrow> verify H publicKey message signature = Inr False"
  by (simp add: verify_def verify_run_def Let_def split: option.splits)

lemma byte_7F: "(0x7F :: byte) = mask 7"
  by (simp add: mask_eq_exp_minus_1)

lemma byte_80: "(0x80 :: byte) = 2 ^ 7"
  by simp

lemma bit7_or_sign: "bit ((x :: byte) OR (y AND 0x80)) 7 \<longleftrightarrow> bit x 7 \<or> bit y 7"
  by (simp add: bit_or_iff bit_and_iff)

lemma low7_or_sign: "\<not> bit (x :: byte) 7 \<Longrightarrow> (x OR (y AND 0x80)) AND 0x7F = x"
  unfolding byte_7F byte_80
  by (rule bit_word_eqI) (auto simp add: bit_and_iff bit_or_iff bit_mask_iff bit_exp_iff less_Suc_eq numeral_eq_Suc)

lemma flip_sign_low7: "((x :: byte) XOR 0x80) AND 0x7F = x AND 0x7F"
  unfolding byte_7F byte_80
  by (rule bit_word_eqI) (auto simp add: bit_and_iff bit_xor_iff bit_mask_iff less_Suc_eq numeral_eq_Suc)

lemma diversifier_eq: "diversifier = 0xFE # replicate 31 0xFF"
  by (simp add: diversifier_def numeral_eq_Suc)

text \<open>What \<open>sign\<close> returns for a valid pointer to a 32-byte private key.\<close>

lemma sign_signature:
  assumes "privateKey < length mem" and "length (mem ! privateKey) = 32"
  shows "\<exists>a r h. 0 \<le> a \<and> a < curve_L
    \<and> SetBytesWithClamping (mem ! privateKey) = Some a
    \<and> SetUniformBytes (hash_Sum H (diversifier @ mem ! privateKey @ slice_at mem message @ random)) = Some r
    \<and> SetUniformBytes (hash_Sum H (Point_Bytes (ScalarBaseMult r) @ Point_Bytes (ScalarBaseMult a)
          @ slice_at mem message)) = Some h
    \<and> sign H mem privateKey message random =
         (mem @ [(Point_Bytes (ScalarBaseMult r) @ Scalar_Bytes (MultiplyAdd h a r))
                   [63 := Scalar_Bytes (MultiplyAdd h a r) ! 31 OR (Point_Bytes (ScalarBaseMult a) ! 31 AND 0x80)]],
          Inr (length mem))"
proof -
  from SetBytesWithClamping_Some [OF assms(2)] obtain a
    where a: "SetBytesWithClamping (mem ! privateKey) = Some a" "0 \<le> a" "a < curve_L"
    by blast
  define r where "r = le_int (hash_Sum H (diversifier @ mem ! privateKey @ slice_at mem message @ random)) mod curve_L"
  define h where "h = le_int (hash_Sum H (Point_Bytes (ScalarBaseMult r) @ Point_Bytes (ScalarBaseMult a)
          @ slice_at mem message)) mod curve_L"
  have r: "SetUniformBytes (hash_Sum H (diversifier @ mem ! privateKey @ slice_at mem message @ random)) = Some r"
    by (simp add: SetUniformBytes_hash_Sum r_def)
  have h: "SetUniformBytes (hash_Sum H (Point_Bytes (ScalarBaseMult r) @ Point_Bytes (ScalarBaseMult a)
          @ slice_at mem message)) = Some h"
    by (simp add: SetUniformBytes_hash_Sum h_def)
  from sign_result [OF assms(1) a(1) refl r refl h refl] a r h
  show ?thesis by blast
qed

text \<open>\<open>sign\<close> allocates, and writes to what it has allocated only.\<close>

lemma sign_frame: "take (length mem) (fst (sign H mem privateKey message random)) = mem"
  by (simp add: sign_def Let_def split: option.splits)

lemma verify_key_rejected:
  "Point_SetBytes (publicKey[31 := publicKey ! 31 AND 0x7F]) = None \<Longrightarrow>
   verify H publicKey message signature = Inr False"
  by (simp add: verify_def verify_run_def Let_def)

lemma verify_R_rejected:
  "Point_SetBytes (take 32 signature) = None \<Longrightarrow> verify H publicKey message signature = Inr False"
  by (simp add: verify_def verify_run_def Let_def split: option.splits)

lemma MultiplyAdd_range: "0 \<le> MultiplyAdd x y z \<and> MultiplyAdd x y z < curve_L"
  using curve_L_pos by (simp add: MultiplyAdd_def)

section \<open>C1: signing and then verifying\<close>

text \<open>
  Claim C1: for every private key, message and randomness, \<open>verify\<close> accepts the
  signature that \<open>sign\<close> returns, under the public key that belongs to the private key.
  The code does not do that. What holds of it: the signature of a 32-byte private key is
  produced without a panic, and \<open>verify\<close> returns, for it, a conjunction whose first
  conjunct says that bit 7 of byte 31 of the public key is clear. So for every private
  key whose public key has that bit set the round trip returns \<open>false\<close>: \<open>sign\<close> has
  copied the bit into byte 63 of the signature, \<open>verify\<close> does not take it out again,
  and the last 32 bytes are then no canonical scalar.
\<close>

theorem sign_then_verify_sign_bit:
  assumes "privateKey < length mem" and "length (mem ! privateKey) = 32"
  shows "\<exists>pk sg b. publicKeyOf (mem ! privateKey) = Some pk
    \<and> signature_of (sign H mem privateKey message random) = Inr sg
    \<and> verify H pk (slice_at mem message) sg = Inr (\<not> bit (pk ! 31) 7 \<and> b)"
proof -
  from sign_signature [OF assms] obtain a r h
    where a: "SetBytesWithClamping (mem ! privateKey) = Some a"
      and s: "sign H mem privateKey message random =
         (mem @ [(Point_Bytes (ScalarBaseMult r) @ Scalar_Bytes (MultiplyAdd h a r))
                   [63 := Scalar_Bytes (MultiplyAdd h a r) ! 31 OR (Point_Bytes (ScalarBaseMult a) ! 31 AND 0x80)]],
          Inr (length mem))"
    by blast
  define pk where "pk = Point_Bytes (ScalarBaseMult a)"
  define encS where "encS = Scalar_Bytes (MultiplyAdd h a r)"
  define sg where "sg = (Point_Bytes (ScalarBaseMult r) @ encS)[63 := encS ! 31 OR (pk ! 31 AND 0x80)]"
  have pk: "publicKeyOf (mem ! privateKey) = Some pk"
    by (simp add: publicKeyOf_def a pk_def)
  have sg: "signature_of (sign H mem privateKey message random) = Inr sg"
    by (simp add: s sg_def pk_def encS_def)
  have d: "drop 32 sg = encS[31 := encS ! 31 OR (pk ! 31 AND 0x80)]"
    by (simp add: sg_def drop_update_swap)
  have "\<exists>b. verify H pk (slice_at mem message) sg = Inr (\<not> bit (pk ! 31) 7 \<and> b)"
  proof (cases "bit (pk ! 31) 7")
    case True
    have "length (drop 32 sg) = 32" by (simp add: d encS_def)
    moreover have "bit (drop 32 sg ! 31) 7"
      using True by (simp add: d encS_def bit7_or_sign)
    ultimately have "SetCanonicalBytes (drop 32 sg) = None"
      by (rule SetCanonicalBytes_sign_bit)
    then have "verify H pk (slice_at mem message) sg = Inr False"
      by (rule verify_scalar_rejected)
    with True show ?thesis by simp
  next
    case False
    from verify_no_fault obtain b where "verify H pk (slice_at mem message) sg = Inr b"
      by blast
    with False show ?thesis by simp
  qed
  with pk sg show ?thesis by blast
qed

theorem sign_then_verify_sign_bit_witness:
  "(0::nat) < length [replicate 32 (0::byte), []]
   \<and> length ([replicate 32 (0::byte), []] ! 0) = 32
   \<and> (\<exists>pk sg b. publicKeyOf ([replicate 32 0, []] ! 0) = Some pk
        \<and> signature_of (sign (\<lambda>d. d) [replicate 32 0, []] 0 1 (replicate 64 0)) = Inr sg
        \<and> verify (\<lambda>d. d) pk (slice_at [replicate 32 0, []] 1) sg = Inr (\<not> bit (pk ! 31) 7 \<and> b))"
proof -
  have h1: "(0::nat) < length [replicate 32 (0::byte), []]" by simp
  have h2: "length ([replicate 32 (0::byte), []] ! 0) = 32" by simp
  from h1 h2 sign_then_verify_sign_bit [OF h1 h2, where H = "\<lambda>d. d" and message = 1 and random = "replicate 64 0"]
  show ?thesis by blast
qed

section \<open>C2: the equation that \<open>verify\<close> checks\<close>

text \<open>
  Claim C2: when the public key, \<open>R\<close> and \<open>S\<close> decode, \<open>verify\<close> returns \<open>true\<close> if
  and only if \<open>S * B - h * A = R\<close>. The code passes \<open>A\<close> itself, not its negation, to
  \<open>VarTimeDoubleScalarBaseMult\<close>: \<open>verify\<close> returns \<open>true\<close> exactly when the three
  decode and \<open>h * A + S * B = R\<close>, with \<open>h\<close> the challenge reduced from the digest.
\<close>

theorem verify_accepts_iff:
  "verify H publicKey message signature = Inr True \<longleftrightarrow>
     (\<exists>A R s h.
        Point_SetBytes (publicKey[31 := publicKey ! 31 AND 0x7F]) = Some A
      \<and> Point_SetBytes (take 32 signature) = Some R
      \<and> SetCanonicalBytes (drop 32 signature) = Some s
      \<and> SetUniformBytes (hash_Sum H
           (take 32 signature @ publicKey[31 := publicKey ! 31 AND 0x7F] @ message)) = Some h
      \<and> pt_add (ScalarMult h A) (ScalarMult s basepoint) = R)"
  by (auto simp add: verify_def verify_run_def Let_def SetUniformBytes_hash_Sum
      VarTimeDoubleScalarBaseMult_def Point_Equal_def sha512_New_def hash_Write_def
      split: option.splits)

section \<open>C3: the bytes that \<open>verify\<close> hashes\<close>

text \<open>
  Claim C3: \<open>verify\<close> hashes the first 32 bytes of the signature, then the public key
  as the caller supplied it, sign bit included, then the message. The code clears bit 7
  of byte 31 in its copy of the public key first and writes that copy: when \<open>verify\<close>
  reaches the hash, the bytes written are the first 32 bytes of the signature, the
  public key with the bit cleared, and the message.
\<close>

theorem verify_hash_input:
  "fst (verify_run H publicKey message signature) =
     (case Point_SetBytes (publicKey[31 := publicKey ! 31 AND 0x7F]) of
        None \<Rightarrow> None
      | Some A \<Rightarrow>
          (case Point_SetBytes (take 32 signature) of
             None \<Rightarrow> None
           | Some R \<Rightarrow>
               (case SetCanonicalBytes (drop 32 signature) of
                  None \<Rightarrow> None
                | Some s \<Rightarrow>
                    Some (take 32 signature @ publicKey[31 := publicKey ! 31 AND 0x7F] @ message))))"
  by (simp add: verify_run_def Let_def SetUniformBytes_hash_Sum sha512_New_def hash_Write_def
      split: option.splits)

section \<open>C4: the nonce of \<open>sign\<close>\<close>

text \<open>
  Claim C4: the input of the nonce hash begins with 32 bytes that all equal \<open>0xFE\<close>,
  followed by the private key, the message and the randomness, and the 64-byte digest
  reduced modulo \<open>L\<close> is the nonce \<open>r\<close>. The prefix is not that: already for the
  all-zero private key, the empty message and all-zero randomness, the first 32 bytes
  of the hash input are not 32 times \<open>0xFE\<close>.
\<close>

theorem nonce_prefix_counterexample:
  "take 32 (sign_nonce_input (replicate 32 0) [] (replicate 64 0)) \<noteq> replicate 32 0xFE"
  by (simp add: sign_nonce_input_eq diversifier_def numeral_eq_Suc)

text \<open>
  Claim C4, amended: the input of the nonce hash is the byte \<open>0xFE\<close>, 31 bytes \<open>0xFF\<close>,
  the 32-byte private key, the message and the randomness; the digest has 64 bytes, and
  reduced modulo \<open>L\<close> it is the nonce \<open>r\<close>: the first 32 bytes of the signature encode
  \<open>r * B\<close>.
\<close>

theorem sign_nonce_derivation:
  assumes "privateKey < length mem" and "length (mem ! privateKey) = 32"
  shows "sign_nonce_input (mem ! privateKey) (slice_at mem message) random =
           (0xFE # replicate 31 0xFF) @ mem ! privateKey @ slice_at mem message @ random
    \<and> (\<exists>sg. signature_of (sign H mem privateKey message random) = Inr sg
          \<and> take 32 sg = Point_Bytes (ScalarBaseMult
              (le_int (hash_Sum H (sign_nonce_input (mem ! privateKey) (slice_at mem message) random))
                 mod curve_L)))
    \<and> length (hash_Sum H (sign_nonce_input (mem ! privateKey) (slice_at mem message) random)) = 64"
proof -
  from sign_signature [OF assms] obtain a r h
    where r: "SetUniformBytes (hash_Sum H (diversifier @ mem ! privateKey @ slice_at mem message @ random)) = Some r"
      and s: "sign H mem privateKey message random =
         (mem @ [(Point_Bytes (ScalarBaseMult r) @ Scalar_Bytes (MultiplyAdd h a r))
                   [63 := Scalar_Bytes (MultiplyAdd h a r) ! 31 OR (Point_Bytes (ScalarBaseMult a) ! 31 AND 0x80)]],
          Inr (length mem))"
    by blast
  from r have r': "r = le_int (hash_Sum H (sign_nonce_input (mem ! privateKey) (slice_at mem message) random)) mod curve_L"
    by (simp add: SetUniformBytes_hash_Sum sign_nonce_input_eq)
  have "take 32 ((Point_Bytes (ScalarBaseMult r) @ Scalar_Bytes (MultiplyAdd h a r))
                   [63 := Scalar_Bytes (MultiplyAdd h a r) ! 31 OR (Point_Bytes (ScalarBaseMult a) ! 31 AND 0x80)])
        = Point_Bytes (ScalarBaseMult r)"
    by simp
  with s r' show ?thesis
    by (simp add: sign_nonce_input_eq diversifier_eq)
qed

theorem sign_nonce_derivation_witness:
  "(0::nat) < length [replicate 32 (0::byte), []]
   \<and> length ([replicate 32 (0::byte), []] ! 0) = 32
   \<and> sign_nonce_input ([replicate 32 0, []] ! 0) (slice_at [replicate 32 0, []] 1) (replicate 64 0) =
           (0xFE # replicate 31 0xFF) @ [replicate 32 0, []] ! 0 @ slice_at [replicate 32 0, []] 1 @ replicate 64 0
   \<and> (\<exists>sg. signature_of (sign (\<lambda>d. d) [replicate 32 0, []] 0 1 (replicate 64 0)) = Inr sg
          \<and> take 32 sg = Point_Bytes (ScalarBaseMult
              (le_int (hash_Sum (\<lambda>d. d) (sign_nonce_input ([replicate 32 0, []] ! 0) (slice_at [replicate 32 0, []] 1) (replicate 64 0)))
                 mod curve_L)))"
proof -
  have h1: "(0::nat) < length [replicate 32 (0::byte), []]" by simp
  have h2: "length ([replicate 32 (0::byte), []] ! 0) = 32" by simp
  from h1 h2 sign_nonce_derivation [OF h1 h2, where H = "\<lambda>d. d" and message = 1 and random = "replicate 64 0"]
  show ?thesis by blast
qed

section \<open>C5: the layout of the signature\<close>

text \<open>
  Claim C5: the signature is the 32-byte encoding of \<open>R = r * B\<close> followed by the
  32-byte encoding of \<open>S = (r + h * a) mod L\<close>, where the sign bit of the public key
  overwrites the top bit of the last byte: the signature has 64 bytes, the first 32 are
  the encoding of \<open>R\<close>, bytes 32 to 62 are those of the encoding of \<open>S\<close>, the low seven
  bits of byte 63 are those of the last byte of \<open>S\<close>, and bit 7 of byte 63 is bit 7 of
  byte 31 of the public key. Here \<open>a\<close> is the clamped private scalar, \<open>r\<close> the nonce and
  \<open>h\<close> the challenge, reduced from the digest of \<open>R\<close>, the public key and the message.
\<close>

theorem sign_signature_layout:
  assumes "privateKey < length mem" and "length (mem ! privateKey) = 32"
  shows "\<exists>a r h sg. SetBytesWithClamping (mem ! privateKey) = Some a
    \<and> SetUniformBytes (hash_Sum H (sign_nonce_input (mem ! privateKey) (slice_at mem message) random)) = Some r
    \<and> SetUniformBytes (hash_Sum H (Point_Bytes (ScalarBaseMult r) @ Point_Bytes (ScalarBaseMult a)
          @ slice_at mem message)) = Some h
    \<and> signature_of (sign H mem privateKey message random) = Inr sg
    \<and> length sg = 64
    \<and> take 32 sg = Point_Bytes (ScalarBaseMult r)
    \<and> take 31 (drop 32 sg) = take 31 (Scalar_Bytes ((r + h * a) mod curve_L))
    \<and> sg ! 63 AND 0x7F = Scalar_Bytes ((r + h * a) mod curve_L) ! 31
    \<and> (bit (sg ! 63) 7 \<longleftrightarrow> bit (Point_Bytes (ScalarBaseMult a) ! 31) 7)"
proof -
  from sign_signature [OF assms] obtain a r h
    where a: "SetBytesWithClamping (mem ! privateKey) = Some a"
      and r: "SetUniformBytes (hash_Sum H (diversifier @ mem ! privateKey @ slice_at mem message @ random)) = Some r"
      and h: "SetUniformBytes (hash_Sum H (Point_Bytes (ScalarBaseMult r) @ Point_Bytes (ScalarBaseMult a)
          @ slice_at mem message)) = Some h"
      and s: "sign H mem privateKey message random =
         (mem @ [(Point_Bytes (ScalarBaseMult r) @ Scalar_Bytes (MultiplyAdd h a r))
                   [63 := Scalar_Bytes (MultiplyAdd h a r) ! 31 OR (Point_Bytes (ScalarBaseMult a) ! 31 AND 0x80)]],
          Inr (length mem))"
    by blast
  define pk where "pk = Point_Bytes (ScalarBaseMult a)"
  define encS where "encS = Scalar_Bytes ((r + h * a) mod curve_L)"
  define sg where "sg = (Point_Bytes (ScalarBaseMult r) @ encS)[63 := encS ! 31 OR (pk ! 31 AND 0x80)]"
  have m: "MultiplyAdd h a r = (r + h * a) mod curve_L"
    by (simp add: MultiplyAdd_def add.commute)
  have top: "\<not> bit (encS ! 31) 7"
    unfolding encS_def using MultiplyAdd_range [of h a r]
    by (intro Scalar_Bytes_top_bit) (simp_all add: m)
  have sg: "signature_of (sign H mem privateKey message random) = Inr sg"
    by (simp add: s sg_def pk_def encS_def m)
  have len: "length sg = 64" by (simp add: sg_def encS_def)
  have t: "take 32 sg = Point_Bytes (ScalarBaseMult r)" by (simp add: sg_def)
  have d: "take 31 (drop 32 sg) = take 31 encS" by (simp add: sg_def drop_update_swap)
  have l: "sg ! 63 = encS ! 31 OR (pk ! 31 AND 0x80)"
    by (simp add: sg_def encS_def)
  have low: "sg ! 63 AND 0x7F = encS ! 31"
    unfolding l using top by (rule low7_or_sign)
  have b: "bit (sg ! 63) 7 \<longleftrightarrow> bit (pk ! 31) 7"
    unfolding l using top by (simp add: bit7_or_sign)
  from a r h sg len t d low b show ?thesis
    unfolding sign_nonce_input_eq pk_def encS_def by blast
qed

theorem sign_signature_layout_witness:
  "(0::nat) < length [replicate 32 (0::byte), []]
   \<and> length ([replicate 32 (0::byte), []] ! 0) = 32
   \<and> (\<exists>a r h sg. SetBytesWithClamping ([replicate 32 0, []] ! 0) = Some a
    \<and> SetUniformBytes (hash_Sum (\<lambda>d. d) (sign_nonce_input ([replicate 32 0, []] ! 0) (slice_at [replicate 32 0, []] 1) (replicate 64 0))) = Some r
    \<and> SetUniformBytes (hash_Sum (\<lambda>d. d) (Point_Bytes (ScalarBaseMult r) @ Point_Bytes (ScalarBaseMult a)
          @ slice_at [replicate 32 0, []] 1)) = Some h
    \<and> signature_of (sign (\<lambda>d. d) [replicate 32 0, []] 0 1 (replicate 64 0)) = Inr sg
    \<and> length sg = 64
    \<and> take 32 sg = Point_Bytes (ScalarBaseMult r)
    \<and> take 31 (drop 32 sg) = take 31 (Scalar_Bytes ((r + h * a) mod curve_L))
    \<and> sg ! 63 AND 0x7F = Scalar_Bytes ((r + h * a) mod curve_L) ! 31
    \<and> (bit (sg ! 63) 7 \<longleftrightarrow> bit (Point_Bytes (ScalarBaseMult a) ! 31) 7))"
proof -
  have h1: "(0::nat) < length [replicate 32 (0::byte), []]" by simp
  have h2: "length ([replicate 32 (0::byte), []] ! 0) = 32" by simp
  from h1 h2 sign_signature_layout [OF h1 h2, where H = "\<lambda>d. d" and message = 1 and random = "replicate 64 0"]
  show ?thesis by blast
qed

section \<open>C6: non-canonical scalars\<close>

text \<open>
  Claim C6: \<open>verify\<close> returns \<open>false\<close>, and no fault, for every 64-byte signature whose
  last 32 bytes encode a value of at least the group order, whatever the public key and
  the message. The witness is the signature whose scalar is the group order itself.
\<close>

theorem verify_rejects_noncanonical_scalar:
  assumes "length signature = 64" and "curve_L \<le> le_int (drop 32 signature)"
  shows "verify H publicKey message signature = Inr False"
proof -
  from assms(2) have "SetCanonicalBytes (drop 32 signature) = None"
    by (simp add: SetCanonicalBytes_def)
  then show ?thesis by (rule verify_scalar_rejected)
qed

theorem verify_rejects_noncanonical_scalar_witness:
  "length (replicate 32 (0::byte) @
      [237, 211, 245, 92, 26, 99, 18, 88, 214, 156, 247, 162, 222, 249, 222, 20,
       0, 0, 0, 0, 0, 0, 0, 0, 0, 0, 0, 0, 0, 0, 0, 16]) = 64
   \<and> curve_L \<le> le_int (drop 32 (replicate 32 (0::byte) @
      [237, 211, 245, 92, 26, 99, 18, 88, 214, 156, 247, 162, 222, 249, 222, 20,
       0, 0, 0, 0, 0, 0, 0, 0, 0, 0, 0, 0, 0, 0, 0, 16]))
   \<and> verify (\<lambda>d. d) (replicate 32 0) [] (replicate 32 (0::byte) @
      [237, 211, 245, 92, 26, 99, 18, 88, 214, 156, 247, 162, 222, 249, 222, 20,
       0, 0, 0, 0, 0, 0, 0, 0, 0, 0, 0, 0, 0, 0, 0, 16]) = Inr False"
proof -
  let ?sg = "replicate 32 (0::byte) @
      [237, 211, 245, 92, 26, 99, 18, 88, 214, 156, 247, 162, 222, 249, 222, 20,
       0, 0, 0, 0, 0, 0, 0, 0, 0, 0, 0, 0, 0, 0, 0, 16]"
  have h1: "length ?sg = 64" by simp
  have h2: "curve_L \<le> le_int (drop 32 ?sg)" by (simp add: curve_L_def)
  from h1 h2 verify_rejects_noncanonical_scalar [OF h1 h2, where H = "\<lambda>d. d" and publicKey = "replicate 32 0" and message = "[]"]
  show ?thesis by blast
qed

section \<open>C7: \<open>sign\<close> is deterministic\<close>

text \<open>
  Claim C7: two calls of \<open>sign\<close> with the same private key, message and randomness
  return the same bytes. The two calls may run in different memories and with different
  pointers (the second call after the first one has allocated its signature, say): if
  the private keys and the messages read there are equal, so are the results, signature
  or panic.
\<close>

theorem sign_deterministic:
  assumes "privateKey < length mem" and "privateKey' < length mem'"
    and "mem ! privateKey = mem' ! privateKey'"
    and "slice_at mem message = slice_at mem' message'"
  shows "signature_of (sign H mem privateKey message random) =
         signature_of (sign H mem' privateKey' message' random)"
  using assms
  by (simp add: sign_def Let_def split: option.splits)

theorem sign_deterministic_witness:
  "(0::nat) < length [replicate 32 (0::byte), []]
   \<and> (0::nat) < length [replicate 32 (0::byte), [], replicate 64 7]
   \<and> [replicate 32 (0::byte), []] ! 0 = [replicate 32 (0::byte), [], replicate 64 7] ! 0
   \<and> slice_at [replicate 32 (0::byte), []] 1 = slice_at [replicate 32 (0::byte), [], replicate 64 7] 1
   \<and> signature_of (sign (\<lambda>d. d) [replicate 32 0, []] 0 1 (replicate 64 0)) =
     signature_of (sign (\<lambda>d. d) [replicate 32 0, [], replicate 64 7] 0 1 (replicate 64 0))"
proof -
  have h1: "(0::nat) < length [replicate 32 (0::byte), []]" by simp
  have h2: "(0::nat) < length [replicate 32 (0::byte), [], replicate 64 7]" by simp
  have h3: "[replicate 32 (0::byte), []] ! 0 = [replicate 32 (0::byte), [], replicate 64 7] ! 0" by simp
  have h4: "slice_at [replicate 32 (0::byte), []] 1 = slice_at [replicate 32 (0::byte), [], replicate 64 7] 1"
    by (simp add: slice_at_def)
  from h1 h2 h3 h4 sign_deterministic [OF h1 h2 h3 h4, where H = "\<lambda>d. d" and random = "replicate 64 0"]
  show ?thesis by blast
qed

section \<open>C8: \<open>sign\<close> leaves its inputs alone\<close>

text \<open>
  Claim C8: after \<open>sign\<close> the private key and the message hold the bytes they held
  before. \<open>sign\<close> only writes to the array it allocates for the signature: the array
  behind \<open>privateKey\<close>, the array under \<open>message\<close> and every other array of the caller's
  memory are unchanged on return. The randomness is passed by value, so the caller's
  copy is out of reach.
\<close>

theorem sign_preserves_inputs:
  assumes "privateKey < length mem" and "message < length mem"
  shows "fst (sign H mem privateKey message random) ! privateKey = mem ! privateKey
       \<and> fst (sign H mem privateKey message random) ! message = mem ! message
       \<and> take (length mem) (fst (sign H mem privateKey message random)) = mem"
proof -
  let ?mem' = "fst (sign H mem privateKey message random)"
  have frame: "take (length mem) ?mem' = mem" by (rule sign_frame)
  have "?mem' ! privateKey = take (length mem) ?mem' ! privateKey"
    using assms(1) by simp
  moreover have "?mem' ! message = take (length mem) ?mem' ! message"
    using assms(2) by simp
  ultimately show ?thesis by (simp add: frame)
qed

theorem sign_preserves_inputs_witness:
  "(0::nat) < length [replicate 32 (0::byte), [1, 2, 3]]
   \<and> (1::nat) < length [replicate 32 (0::byte), [1, 2, 3]]
   \<and> fst (sign (\<lambda>d. d) [replicate 32 0, [1, 2, 3]] 0 1 (replicate 64 0)) ! 0
       = [replicate 32 0, [1, 2, 3]] ! 0
   \<and> fst (sign (\<lambda>d. d) [replicate 32 0, [1, 2, 3]] 0 1 (replicate 64 0)) ! 1
       = [replicate 32 0, [1, 2, 3]] ! 1"
proof -
  have h1: "(0::nat) < length [replicate 32 (0::byte), [1, 2, 3]]" by simp
  have h2: "(1::nat) < length [replicate 32 (0::byte), [1, 2, 3]]" by simp
  from h1 h2 sign_preserves_inputs [OF h1 h2, where H = "\<lambda>d. d" and random = "replicate 64 0"]
  show ?thesis by blast
qed

section \<open>C9: \<open>verify\<close> is total and fails closed\<close>

text \<open>
  Claim C9: for every public key, message and signature \<open>verify\<close> returns a boolean
  and never a fault, and it returns \<open>false\<close> whenever the public key, \<open>R\<close> or \<open>S\<close> does
  not decode.
\<close>

theorem verify_total_fails_closed:
  "(\<exists>b. verify H publicKey message signature = Inr b)
   \<and> (Point_SetBytes (publicKey[31 := publicKey ! 31 AND 0x7F]) = None
        \<or> Point_SetBytes (take 32 signature) = None
        \<or> SetCanonicalBytes (drop 32 signature) = None
      \<longrightarrow> verify H publicKey message signature = Inr False)"
proof (intro conjI impI)
  show "\<exists>b. verify H publicKey message signature = Inr b"
    by (rule verify_no_fault)
next
  assume "Point_SetBytes (publicKey[31 := publicKey ! 31 AND 0x7F]) = None
        \<or> Point_SetBytes (take 32 signature) = None
        \<or> SetCanonicalBytes (drop 32 signature) = None"
  then show "verify H publicKey message signature = Inr False"
    using verify_key_rejected verify_R_rejected verify_scalar_rejected by blast
qed

theorem verify_total_fails_closed_witness:
  "SetCanonicalBytes (drop 32 (replicate 64 (0xFF::byte))) = None
   \<and> verify (\<lambda>d. d) (replicate 32 0) [] (replicate 64 0xFF) = Inr False"
proof -
  have h: "SetCanonicalBytes (drop 32 (replicate 64 (0xFF::byte))) = None"
    by (rule SetCanonicalBytes_sign_bit) simp_all
  from h verify_total_fails_closed [of "\<lambda>d. d" "replicate 32 0" "[]" "replicate 64 0xFF"]
  show ?thesis by blast
qed

section \<open>C10: \<open>verify\<close> ignores the sign bit of the public key\<close>

text \<open>
  Claim C10: two public keys that differ only in bit 7 of byte 31 get the same answer
  from \<open>verify\<close>, for every message and signature.
\<close>

theorem verify_ignores_sign_bit:
  "verify H (publicKey[31 := publicKey ! 31 XOR 0x80]) message signature =
   verify H publicKey message signature"
proof -
  have "(publicKey[31 := publicKey ! 31 XOR 0x80])
          [31 := (publicKey[31 := publicKey ! 31 XOR 0x80]) ! 31 AND 0x7F]
        = publicKey[31 := publicKey ! 31 AND 0x7F]"
  proof (cases "31 < length publicKey")
    case True
    then show ?thesis by (simp add: flip_sign_low7)
  next
    case False
    then show ?thesis by (simp add: list_update_beyond)
  qed
  then show ?thesis by (simp add: verify_def verify_run_def)
qed

end
